theory Spec2Isabelle
  imports Main
begin

section \<open>Data model\<close>

text \<open>
  Modelled from the spec: the closed error enumeration of the \<open>errors\<close> package, whose
  declaration is not part of \<open>schema.go\<close>. The source names three values of it.
\<close>

datatype ValidationError =
    ValidationErrorNil
  | ValidationErrorInvalidSyntax
  | ValidationErrorInvalidValue

text \<open>
  Modelled from the spec: the mutability classes of an attribute. \<open>schema.go\<close> reads the
  constants \<open>attributeMutabilityImmutable\<close> and \<open>attributeMutabilityReadOnly\<close>; the two
  remaining classes are the ones the spec lists.
\<close>

datatype attributeMutability =
    attributeMutabilityImmutable
  | attributeMutabilityReadOnly
  | attributeMutabilityReadWrite
  | attributeMutabilityWriteOnly

text \<open>
  Modelled from the spec: the struct \<open>CoreAttribute\<close> is declared outside \<open>schema.go\<close>.
  The fields \<open>name\<close>, \<open>mutability\<close> and \<open>subAttributes\<close> are the ones \<open>schema.go\<close>
  reads; every other field of the struct (type, requiredness, ...) is kept in the
  component \<open>other\<close>, of an arbitrary type, so that the attribute's own \<open>validate\<close> and
  \<open>getRawAttributes\<close> may depend on it.
\<close>

datatype 'x CoreAttribute =
  CoreAttribute (name: string) (mutability: attributeMutability)
    (subAttributes: "'x CoreAttribute list") (other: 'x)

text \<open>
  A dynamically typed Go value (\<open>interface{}\<close>). \<open>VNil\<close> is the nil interface, \<open>VMap\<close> a
  \<open>map[string]interface{}\<close>, listed in the order in which a \<open>range\<close> loop visits its
  entries, \<open>VSlice\<close> a \<open>[]interface{}\<close>, and \<open>VScalar\<close> every other dynamic type
  (strings, numbers, booleans), whose payload the code of \<open>schema.go\<close> never inspects.
  The keys of a Go map are distinct; a property that needs it assumes
  \<open>distinct (map fst core)\<close>, every other property holds for all entry lists.
\<close>

datatype 'a any =
    VNil
  | VScalar 'a
  | VSlice "'a any list"
  | VMap "(string \<times> 'a any) list"

text \<open>The struct \<open>Schema\<close>; an \<open>optional.String\<close> is a \<open>string option\<close>.\<close>

record 'x Schema =
  Attributes :: "'x CoreAttribute list"
  Description :: "string option"
  ID :: string
  Name :: "string option"

text \<open>
  The result of the external path parser: the two fields of the parsed path that
  \<open>findAttribute\<close> reads.
\<close>

record Path =
  AttributeName :: string
  SubAttribute :: string

section \<open>The mutability guard\<close>

definition isImmutable :: "string \<Rightarrow> 'x CoreAttribute \<Rightarrow> bool" where
  "isImmutable op attr =
     (mutability attr = attributeMutabilityImmutable \<and> (op = ''replace'' \<or> op = ''remove''))"

definition isReadOnly :: "'x CoreAttribute \<Rightarrow> bool" where
  "isReadOnly attr = (mutability attr = attributeMutabilityReadOnly)"

definition cannotBePatched :: "string \<Rightarrow> 'x CoreAttribute \<Rightarrow> bool" where
  "cannotBePatched op attr = (isImmutable op attr \<or> isReadOnly attr)"

section \<open>Path resolution\<close>

text \<open>
  \<open>findAttribute\<close> parses the path once and then scans the attribute list; the scan is
  \<open>findAttribute_range\<close>. The parser (\<open>filter.NewParser(...).ParsePath()\<close>) and
  \<open>strings.EqualFold\<close> are library functions and are parameters of the model; a parse
  error is \<open>None\<close>. The Go function returns a pointer and an error; the pointer is an
  option here, \<open>None\<close> being \<open>nil\<close>.
\<close>

function findAttribute ::
    "(string \<Rightarrow> string \<Rightarrow> bool) \<Rightarrow> (string \<Rightarrow> Path option) \<Rightarrow> string \<Rightarrow> string \<Rightarrow>
     'x CoreAttribute list \<Rightarrow> 'x CoreAttribute option \<times> ValidationError"
  and findAttribute_range ::
    "(string \<Rightarrow> string \<Rightarrow> bool) \<Rightarrow> (string \<Rightarrow> Path option) \<Rightarrow> string \<Rightarrow> Path \<Rightarrow>
     'x CoreAttribute list \<Rightarrow> 'x CoreAttribute option \<times> ValidationError"
where
  "findAttribute EqualFold ParsePath operation path attributes =
     (case ParsePath path of
        None \<Rightarrow> (None, ValidationErrorInvalidValue)
      | Some p \<Rightarrow> findAttribute_range EqualFold ParsePath operation p attributes)"
| "findAttribute_range EqualFold ParsePath operation p [] =
     (None, ValidationErrorInvalidValue)"
| "findAttribute_range EqualFold ParsePath operation p (attr # attributes) =
     (if EqualFold (name attr) (AttributeName p) then
        if cannotBePatched operation attr then (None, ValidationErrorInvalidValue)
        else if SubAttribute p \<noteq> '''' \<and> length (subAttributes attr) > 0 then
          findAttribute EqualFold ParsePath operation (SubAttribute p) (subAttributes attr)
        else (Some attr, ValidationErrorNil)
      else findAttribute_range EqualFold ParsePath operation p attributes)"
  by pat_completeness auto

termination
proof (relation "measure (\<lambda>c. case c of
          Inl (_, _, _, _, attributes) \<Rightarrow> 2 * size_list size attributes + 1
        | Inr (_, _, _, _, attributes) \<Rightarrow> 2 * size_list size attributes)", goal_cases)
  case (3 EqualFold ParsePath operation p attr attributes)
  then show ?case by (cases attr) simp
qed simp_all

section \<open>Whole-document validation\<close>

text \<open>
  The inner loop of \<open>Validate\<close> (\<open>for k, v := range core\<close>) for one attribute name. It
  carries the local variables \<open>found\<close> and \<open>hit\<close>; \<open>None\<close> is the early return on a
  second match.
\<close>

fun Validate_core ::
    "(string \<Rightarrow> string \<Rightarrow> bool) \<Rightarrow> string \<Rightarrow> (string \<times> 'a any) list \<Rightarrow> bool \<Rightarrow> 'a any \<Rightarrow>
     (bool \<times> 'a any) option"
where
  "Validate_core EqualFold n [] found hit = Some (found, hit)"
| "Validate_core EqualFold n ((k, v) # core) found hit =
     (if EqualFold n k then
        if found then None else Validate_core EqualFold n core True v
      else Validate_core EqualFold n core found hit)"

text \<open>
  The outer loop (\<open>for _, attribute := range s.Attributes\<close>), carrying the map
  \<open>attributes\<close> built so far. The attribute's own \<open>validate\<close> method is declared outside
  \<open>schema.go\<close> and is a parameter. The Go function returns a map and an error; a nil
  map is \<open>None\<close>.
\<close>

fun Validate_attributes ::
    "('x CoreAttribute \<Rightarrow> 'a any \<Rightarrow> 'a any \<times> ValidationError) \<Rightarrow> (string \<Rightarrow> string \<Rightarrow> bool) \<Rightarrow>
     'x CoreAttribute list \<Rightarrow> (string \<times> 'a any) list \<Rightarrow> (string \<rightharpoonup> 'a any) \<Rightarrow>
     (string \<rightharpoonup> 'a any) option \<times> ValidationError"
where
  "Validate_attributes validate EqualFold [] core attributes =
     (Some attributes, ValidationErrorNil)"
| "Validate_attributes validate EqualFold (attribute # rest) core attributes =
     (case Validate_core EqualFold (name attribute) core False VNil of
        None \<Rightarrow> (None, ValidationErrorInvalidSyntax)
      | Some (found, hit) \<Rightarrow>
          (case validate attribute hit of
             (attr, scimErr) \<Rightarrow>
               if scimErr \<noteq> ValidationErrorNil then (None, scimErr)
               else Validate_attributes validate EqualFold rest core
                      (attributes(name attribute \<mapsto> attr))))"

definition Validate ::
    "('x CoreAttribute \<Rightarrow> 'a any \<Rightarrow> 'a any \<times> ValidationError) \<Rightarrow> (string \<Rightarrow> string \<Rightarrow> bool) \<Rightarrow>
     'x Schema \<Rightarrow> 'a any \<Rightarrow> (string \<rightharpoonup> 'a any) option \<times> ValidationError"
where
  "Validate validate EqualFold s resource =
     (case resource of
        VMap core \<Rightarrow> Validate_attributes validate EqualFold (Attributes s) core Map.empty
      | _ \<Rightarrow> (None, ValidationErrorInvalidSyntax))"

section \<open>Patch validation\<close>

text \<open>
  \<open>ValidatePatchOperationValue\<close> is a loop over the entries of \<open>operationValue\<close>, in the
  order of the list.
\<close>

fun ValidatePatchOperationValue ::
    "('x CoreAttribute \<Rightarrow> 'a any \<Rightarrow> 'a any \<times> ValidationError) \<Rightarrow> (string \<Rightarrow> string \<Rightarrow> bool) \<Rightarrow>
     (string \<Rightarrow> Path option) \<Rightarrow> 'x Schema \<Rightarrow> string \<Rightarrow> (string \<times> 'a any) list \<Rightarrow>
     ValidationError"
where
  "ValidatePatchOperationValue validate EqualFold ParsePath s operation [] =
     ValidationErrorNil"
| "ValidatePatchOperationValue validate EqualFold ParsePath s operation ((k, v) # rest) =
     (case findAttribute EqualFold ParsePath operation k (Attributes s) of
        (attr, err) \<Rightarrow>
          if err \<noteq> ValidationErrorNil then err
          else (case attr of
                  None \<Rightarrow> ValidationErrorInvalidValue
                | Some a \<Rightarrow>
                    if cannotBePatched operation a then ValidationErrorInvalidValue
                    else
                      let scimErr =
                            (if operation \<noteq> ''remove'' then snd (validate a v)
                             else ValidationErrorNil)
                      in if scimErr \<noteq> ValidationErrorNil then scimErr
                         else ValidatePatchOperationValue validate EqualFold ParsePath s
                                operation rest))"

section \<open>Serialization\<close>

text \<open>
  Modelled from the spec: \<open>optional.String.Value()\<close>, declared outside \<open>schema.go\<close>; the
  absent state reads as the empty string.
\<close>

definition Value :: "string option \<Rightarrow> string" where
  "Value s = (case s of None \<Rightarrow> '''' | Some v \<Rightarrow> v)"

text \<open>
  The values \<open>MarshalJSON\<close> stores in the map it hands to \<open>json.Marshal\<close>: a string, an
  \<open>optional.String\<close> as it is, or the list of rendered attributes.
\<close>

datatype 'r field =
    FString string
  | FOptionalString "string option"
  | FAttributes "'r list"

text \<open>
  \<open>Schema.getRawAttributes\<close>: one entry per declared attribute, at the same index. The
  attribute's own \<open>getRawAttributes\<close> is declared outside \<open>schema.go\<close> and is the
  parameter \<open>raw\<close>.
\<close>

definition getRawAttributes :: "('x CoreAttribute \<Rightarrow> 'r) \<Rightarrow> 'x Schema \<Rightarrow> 'r list" where
  "getRawAttributes raw s = map raw (Attributes s)"

text \<open>
  \<open>MarshalJSON\<close> is modelled up to the call of the encoder: its value is the map literal
  passed to \<open>json.Marshal\<close>, which writes one member per key.
\<close>

definition MarshalJSON :: "('x CoreAttribute \<Rightarrow> 'r) \<Rightarrow> 'x Schema \<Rightarrow> (string \<times> 'r field) list" where
  "MarshalJSON raw s =
     [(''id'', FString (ID s)),
      (''name'', FOptionalString (Name s)),
      (''description'', FString (Value (Description s))),
      (''attributes'', FAttributes (getRawAttributes raw s))]"

section \<open>Notions used to state the properties\<close>

text \<open>The entries of a document whose key matches an attribute name.\<close>

definition matching ::
    "(string \<Rightarrow> string \<Rightarrow> bool) \<Rightarrow> string \<Rightarrow> (string \<times> 'a any) list \<Rightarrow> (string \<times> 'a any) list"
where
  "matching EqualFold n core = filter (\<lambda>kv. EqualFold n (fst kv)) core"

text \<open>
  The value presented to an attribute's validator: the value of the matching entry, or
  the nil interface (the absent marker) when no key matches.
\<close>

definition presented ::
    "(string \<Rightarrow> string \<Rightarrow> bool) \<Rightarrow> string \<Rightarrow> (string \<times> 'a any) list \<Rightarrow> 'a any"
where
  "presented EqualFold n core =
     (case matching EqualFold n core of [] \<Rightarrow> VNil | kv # _ \<Rightarrow> snd kv)"

text \<open>
  The attributes a path addresses, level by level, when mutability is left out of
  account: the first attribute whose name matches the parsed attribute name, and, when
  a sub-path remains and that attribute has children, the attributes the sub-path
  addresses among the children.
\<close>

inductive onPath ::
    "(string \<Rightarrow> string \<Rightarrow> bool) \<Rightarrow> (string \<Rightarrow> Path option) \<Rightarrow> string \<Rightarrow>
     'x CoreAttribute list \<Rightarrow> 'x CoreAttribute \<Rightarrow> bool"
  for EqualFold :: "string \<Rightarrow> string \<Rightarrow> bool" and ParsePath :: "string \<Rightarrow> Path option"
where
  here: "ParsePath path = Some p \<Longrightarrow>
         find (\<lambda>a. EqualFold (name a) (AttributeName p)) attributes = Some attr \<Longrightarrow>
         onPath EqualFold ParsePath path attributes attr"
| below: "ParsePath path = Some p \<Longrightarrow>
         find (\<lambda>a. EqualFold (name a) (AttributeName p)) attributes = Some attr \<Longrightarrow>
         SubAttribute p \<noteq> '''' \<Longrightarrow> subAttributes attr \<noteq> [] \<Longrightarrow>
         onPath EqualFold ParsePath (SubAttribute p) (subAttributes attr) sub \<Longrightarrow>
         onPath EqualFold ParsePath path attributes sub"

section \<open>Instances of the parameters, for the examples\<close>

text \<open>
  The examples need a fold comparison, a path parser and a validator to run on. On
  strings of ASCII letters \<open>strings.EqualFold\<close> is equality after lowering the letters
  \<open>A\<close> to \<open>Z\<close>; a path of plain attribute names separated by one dot parses into the
  name before the dot and the rest; the validator rejects the absent marker for an
  attribute whose \<open>other\<close> component (read as its \<open>required\<close> flag) is set and accepts
  every other value unchanged.
\<close>

definition toLower :: "char \<Rightarrow> char" where
  "toLower c =
     (case map_of (zip ''ABCDEFGHIJKLMNOPQRSTUVWXYZ'' ''abcdefghijklmnopqrstuvwxyz'') c of
        None \<Rightarrow> c
      | Some l \<Rightarrow> l)"

definition asciiEqualFold :: "string \<Rightarrow> string \<Rightarrow> bool" where
  "asciiEqualFold s t = (map toLower s = map toLower t)"

definition dottedPath :: "string \<Rightarrow> Path option" where
  "dottedPath path =
     (if path = '''' then None
      else Some \<lparr>AttributeName = takeWhile (\<lambda>c. c \<noteq> CHR ''.'') path,
                 SubAttribute = drop 1 (dropWhile (\<lambda>c. c \<noteq> CHR ''.'') path)\<rparr>)"

definition requiredValidate ::
    "bool CoreAttribute \<Rightarrow> string any \<Rightarrow> string any \<times> ValidationError"
where
  "requiredValidate attribute v =
     (if v = VNil \<and> other attribute then (VNil, ValidationErrorInvalidValue)
      else (v, ValidationErrorNil))"

definition familyName :: "bool CoreAttribute" where
  "familyName = CoreAttribute ''familyName'' attributeMutabilityReadWrite [] False"

definition fullName :: "bool CoreAttribute" where
  "fullName = CoreAttribute ''name'' attributeMutabilityReadWrite [familyName] False"

definition userName :: "bool CoreAttribute" where
  "userName = CoreAttribute ''userName'' attributeMutabilityReadWrite [] True"

definition externalId :: "bool CoreAttribute" where
  "externalId = CoreAttribute ''externalId'' attributeMutabilityReadWrite [] True"

definition blockedName :: "bool CoreAttribute" where
  "blockedName = CoreAttribute ''name'' attributeMutabilityReadOnly [familyName] False"

definition userSchema :: "bool Schema" where
  "userSchema =
     \<lparr>Attributes = [userName, fullName], Description = None, ID = ''urn:example:User'',
      Name = Some ''User''\<rparr>"

definition provisioningSchema :: "bool Schema" where
  "provisioningSchema =
     \<lparr>Attributes = [externalId, userName], Description = None, ID = ''urn:example:Provisioning'',
      Name = None\<rparr>"

section \<open>The loops in closed form\<close>

lemma Validate_core_eq:
  "Validate_core E n core found hit =
     (if (if found then matching E n core \<noteq> [] else length (matching E n core) > 1) then None
      else Some (found \<or> matching E n core \<noteq> [],
                 case matching E n core of [] \<Rightarrow> hit | kv # _ \<Rightarrow> snd kv))"
  by (induction core arbitrary: found hit) (auto simp: matching_def split: list.splits)

lemma Validate_core_start:
  "Validate_core E n core False VNil =
     (if length (matching E n core) \<le> 1
      then Some (matching E n core \<noteq> [], presented E n core) else None)"
  by (simp add: Validate_core_eq presented_def not_less)

lemma Validate_attributes_fst:
  "(fst (Validate_attributes vld E as core acc) \<noteq> None) =
   (snd (Validate_attributes vld E as core acc) = ValidationErrorNil)"
  by (induction as arbitrary: acc) (auto split: option.splits prod.splits)

lemma Validate_attributes_ok:
  "(snd (Validate_attributes vld E as core acc) = ValidationErrorNil) =
   (\<forall>a \<in> set as. length (matching E (name a) core) \<le> 1 \<and>
        snd (vld a (presented E (name a) core)) = ValidationErrorNil)"
  by (induction as arbitrary: acc)
     (auto simp: Validate_core_start split: option.splits prod.splits)

lemma Validate_attributes_dom:
  "Validate_attributes vld E as core acc = (Some m, e) \<Longrightarrow> dom m = dom acc \<union> name ` set as"
  by (induction as arbitrary: acc)
     (auto simp: Validate_core_start split: option.splits prod.splits if_splits)

lemma Validate_attributes_lookup:
  "Validate_attributes vld E as core acc = (Some m, e) \<Longrightarrow> distinct (map name as) \<Longrightarrow>
     (\<forall>a \<in> set as. m (name a) = Some (fst (vld a (presented E (name a) core)))) \<and>
     (\<forall>n. n \<notin> name ` set as \<longrightarrow> m n = acc n)"
proof (induction as arbitrary: acc)
  case Nil
  then show ?case by simp
next
  case (Cons a as)
  from Cons.prems(1) obtain attr where
      v: "vld a (presented E (name a) core) = (attr, ValidationErrorNil)"
    and r: "Validate_attributes vld E as core (acc(name a \<mapsto> attr)) = (Some m, e)"
    by (auto simp: Validate_core_start split: option.splits prod.splits if_splits)
  from Cons.prems(2) have d: "distinct (map name as)" and n: "name a \<notin> name ` set as"
    by auto
  from Cons.IH [OF r d] n v show ?case by auto
qed

lemma two_matching:
  assumes "(k1, v1) \<in> set core" "(k2, v2) \<in> set core" "k1 \<noteq> k2" "E n k1" "E n k2"
  shows "1 < length (matching E n core)"
proof -
  have "{(k1, v1), (k2, v2)} \<subseteq> set (matching E n core)"
    using assms by (auto simp: matching_def)
  then have "card {(k1, v1), (k2, v2)} \<le> card (set (matching E n core))"
    by (intro card_mono) auto
  also have "\<dots> \<le> length (matching E n core)" by (rule card_length)
  finally show ?thesis using assms(3) by simp
qed

lemma Validate_attributes_duplicate:
  assumes "1 < length (matching E (name a) core)"
    and "\<forall>b \<in> set pre. snd (vld b (presented E (name b) core)) = ValidationErrorNil"
  shows "Validate_attributes vld E (pre @ a # post) core acc = (None, ValidationErrorInvalidSyntax)"
  using assms(2)
proof (induction pre arbitrary: acc)
  case Nil
  with assms(1) show ?case by (simp add: Validate_core_start)
next
  case (Cons b pre)
  then show ?case by (auto simp: Validate_core_start split: prod.splits)
qed

section \<open>Documents that validate alike\<close>

lemma Validate_core_cong:
  assumes "map snd (matching E n c1) = map snd (matching E n c2)"
  shows "Validate_core E n c1 found hit = Validate_core E n c2 found hit"
proof -
  from assms have "length (map snd (matching E n c1)) = length (map snd (matching E n c2))"
    by simp
  then have l: "length (matching E n c1) = length (matching E n c2)" by simp
  then have e: "(matching E n c1 = []) = (matching E n c2 = [])" by auto
  have h: "(case matching E n c1 of [] \<Rightarrow> hit | kv # _ \<Rightarrow> snd kv) =
           (case matching E n c2 of [] \<Rightarrow> hit | kv # _ \<Rightarrow> snd kv)"
    using assms by (cases "matching E n c1"; cases "matching E n c2") auto
  show ?thesis unfolding Validate_core_eq l e h by (rule refl)
qed

lemma Validate_attributes_cong:
  assumes "\<forall>a \<in> set as. map snd (matching E (name a) c1) = map snd (matching E (name a) c2)"
  shows "Validate_attributes vld E as c1 acc = Validate_attributes vld E as c2 acc"
  using assms
proof (induction as arbitrary: acc)
  case Nil
  show ?case by simp
next
  case (Cons a as)
  from Cons.prems
  have "Validate_core E (name a) c1 False VNil = Validate_core E (name a) c2 False VNil"
    by (intro Validate_core_cong) simp
  moreover from Cons.prems
  have "Validate_attributes vld E as c1 acc' = Validate_attributes vld E as c2 acc'" for acc'
    by (intro Cons.IH) simp
  ultimately show ?case by (simp split: option.splits prod.splits)
qed

lemma matching_insert:
  "\<not> E n k \<Longrightarrow> matching E n (xs @ (k, v) # ys) = matching E n (xs @ ys)"
  by (simp add: matching_def)

lemma matching_set: "set (matching E n c) = {kv \<in> set c. E n (fst kv)}"
  by (auto simp: matching_def)

lemma matching_distinct: "distinct (map fst c) \<Longrightarrow> distinct (matching E n c)"
  by (simp add: matching_def distinct_map)

lemma Validate_core_set:
  assumes "distinct (map fst c1)" and "distinct (map fst c2)"
    and "set (matching E n c1) = set (matching E n c2)"
  shows "Validate_core E n c1 False VNil = Validate_core E n c2 False VNil"
proof -
  let ?m1 = "matching E n c1" and ?m2 = "matching E n c2"
  have d: "distinct ?m1" "distinct ?m2"
    using assms(1,2) by (simp_all add: matching_distinct)
  then have "length ?m1 = card (set ?m1)" "length ?m2 = card (set ?m2)"
    by (simp_all add: distinct_card)
  with assms(3) have l: "length ?m1 = length ?m2" by simp
  have "?m1 = ?m2" if "length ?m1 \<le> 1"
    using that l assms(3) by (cases ?m1; cases ?m2) auto
  then show ?thesis
    unfolding Validate_core_start presented_def using l by auto
qed

lemma Validate_attributes_set:
  assumes "distinct (map fst c1)" and "distinct (map fst c2)"
    and "\<forall>a \<in> set as. set (matching E (name a) c1) = set (matching E (name a) c2)"
  shows "Validate_attributes vld E as c1 acc = Validate_attributes vld E as c2 acc"
  using assms(3)
proof (induction as arbitrary: acc)
  case Nil
  show ?case by simp
next
  case (Cons a as)
  from Cons.prems
  have "Validate_core E (name a) c1 False VNil = Validate_core E (name a) c2 False VNil"
    by (intro Validate_core_set assms(1,2)) simp
  moreover from Cons.prems
  have "Validate_attributes vld E as c1 acc' = Validate_attributes vld E as c2 acc'" for acc'
    by (intro Cons.IH) simp
  ultimately show ?case by (simp split: option.splits prod.splits)
qed

text \<open>
  A Go map has distinct keys and a \<open>range\<close> loop visits its entries in an unspecified
  order. The result of \<open>Validate\<close> does not depend on that order.
\<close>

lemma Validate_order:
  assumes "distinct (map fst c1)" and "distinct (map fst c2)" and "set c1 = set c2"
  shows "Validate vld E S (VMap c1) = Validate vld E S (VMap c2)"
  unfolding Validate_def any.case
  using assms by (intro Validate_attributes_set) (simp_all add: matching_set)

lemma Validate_assign:
  assumes "distinct (map fst c1)" and "distinct (map fst c2)"
    and "map_of c2 = (map_of c1)(k \<mapsto> v)"
    and "\<forall>a \<in> set (Attributes S). \<not> E (name a) k"
  shows "Validate vld E S (VMap c2) = Validate vld E S (VMap c1)"
  unfolding Validate_def any.case
proof (intro Validate_attributes_set assms(1,2) ballI)
  fix a assume a: "a \<in> set (Attributes S)"
  have n: "\<not> E (name a) k" using a assms(4) by blast
  have "(x, y) \<in> set c2 \<longleftrightarrow> (x, y) \<in> set c1" if "E (name a) x" for x y
  proof -
    from that n have "x \<noteq> k" by blast
    have "(x, y) \<in> set c2 \<longleftrightarrow> map_of c2 x = Some y"
      using assms(2) by simp
    also have "\<dots> \<longleftrightarrow> map_of c1 x = Some y"
      using \<open>x \<noteq> k\<close> by (simp add: assms(3))
    also have "\<dots> \<longleftrightarrow> (x, y) \<in> set c1"
      using assms(1) by simp
    finally show ?thesis .
  qed
  then show "set (matching E (name a) c2) = set (matching E (name a) c1)"
    unfolding matching_set by auto
qed

section \<open>Path resolution in closed form\<close>

lemma findAttribute_range_find:
  "findAttribute_range E P operation p attributes =
     (case find (\<lambda>a. E (name a) (AttributeName p)) attributes of
        None \<Rightarrow> (None, ValidationErrorInvalidValue)
      | Some attr \<Rightarrow>
          if cannotBePatched operation attr then (None, ValidationErrorInvalidValue)
          else if SubAttribute p \<noteq> '''' \<and> subAttributes attr \<noteq> [] then
            findAttribute E P operation (SubAttribute p) (subAttributes attr)
          else (Some attr, ValidationErrorNil))"
  by (induction attributes) auto

lemma findAttribute_find:
  "findAttribute E P operation path attributes =
     (case P path of
        None \<Rightarrow> (None, ValidationErrorInvalidValue)
      | Some p \<Rightarrow>
         (case find (\<lambda>a. E (name a) (AttributeName p)) attributes of
            None \<Rightarrow> (None, ValidationErrorInvalidValue)
          | Some attr \<Rightarrow>
              if cannotBePatched operation attr then (None, ValidationErrorInvalidValue)
              else if SubAttribute p \<noteq> '''' \<and> subAttributes attr \<noteq> [] then
                findAttribute E P operation (SubAttribute p) (subAttributes attr)
              else (Some attr, ValidationErrorNil)))"
  by (simp add: findAttribute_range_find split: option.splits)

text \<open>
  Resolution returns either no attribute and the invalid-value error, or an attribute
  that the guard permits and no error.
\<close>

lemma findAttribute_result:
  "findAttribute E P operation path attributes = (r, e) \<Longrightarrow>
     (r = None \<and> e = ValidationErrorInvalidValue) \<or>
     (\<exists>a. r = Some a \<and> e = ValidationErrorNil \<and> \<not> cannotBePatched operation a)"
  "findAttribute_range E P operation p attributes = (r, e) \<Longrightarrow>
     (r = None \<and> e = ValidationErrorInvalidValue) \<or>
     (\<exists>a. r = Some a \<and> e = ValidationErrorNil \<and> \<not> cannotBePatched operation a)"
  by (induction E P operation path attributes and E P operation p attributes
        arbitrary: r e and r e rule: findAttribute_findAttribute_range.induct)
     (auto split: option.splits if_splits)

lemma remove_step:
  "ValidatePatchOperationValue vld E P s ''remove'' ((k, v) # rest) =
     (if \<exists>a. findAttribute E P ''remove'' k (Attributes s) = (Some a, ValidationErrorNil) \<and>
              \<not> cannotBePatched ''remove'' a
      then ValidatePatchOperationValue vld E P s ''remove'' rest
      else ValidationErrorInvalidValue)"
proof (cases "findAttribute E P ''remove'' k (Attributes s)")
  case (Pair r e)
  from findAttribute_result(1) [OF Pair] show ?thesis
    by (auto simp: Pair simp del: findAttribute.simps)
qed

lemma remove_any_validator:
  "ValidatePatchOperationValue vld E P s ''remove'' ov =
     ValidatePatchOperationValue vld' E P s ''remove'' ov"
proof (induction ov)
  case Nil
  show ?case by simp
next
  case (Cons kv ov)
  obtain k v where kv: "kv = (k, v)" by (cases kv)
  show ?case unfolding kv remove_step Cons.IH by (rule refl)
qed

lemma remove_succeeds_iff:
  "(ValidatePatchOperationValue vld E P s ''remove'' ov = ValidationErrorNil) =
     (\<forall>kv \<in> set ov. \<exists>a. findAttribute E P ''remove'' (fst kv) (Attributes s)
                              = (Some a, ValidationErrorNil) \<and>
                          \<not> cannotBePatched ''remove'' a)"
proof (induction ov)
  case Nil
  show ?case by simp
next
  case (Cons kv ov)
  obtain k v where kv: "kv = (k, v)" by (cases kv)
  show ?case unfolding kv remove_step using Cons.IH
    by (simp del: findAttribute.simps)
qed

section \<open>Facts about the instances\<close>

lemma asciiEqualFold_simps:
  "asciiEqualFold ''name'' ''name''"
  "asciiEqualFold ''familyName'' ''familyName''"
  "asciiEqualFold ''userName'' ''userName''"
  "\<not> asciiEqualFold ''familyName'' ''bogus''"
  "\<not> asciiEqualFold ''familyName'' ''name''"
  "\<not> asciiEqualFold ''userName'' ''name''"
  "\<not> asciiEqualFold ''userName'' ''familyName''"
  by (simp_all add: asciiEqualFold_def toLower_def)

lemma asciiEqualFold_equiv:
  "asciiEqualFold x y \<Longrightarrow> asciiEqualFold y x"
  "asciiEqualFold x y \<Longrightarrow> asciiEqualFold y z \<Longrightarrow> asciiEqualFold x z"
  by (simp_all add: asciiEqualFold_def)

lemma dottedPath_simps:
  "dottedPath ''name.familyName''
     = Some \<lparr>AttributeName = ''name'', SubAttribute = ''familyName''\<rparr>"
  "dottedPath ''name.bogus'' = Some \<lparr>AttributeName = ''name'', SubAttribute = ''bogus''\<rparr>"
  "dottedPath ''familyName'' = Some \<lparr>AttributeName = ''familyName'', SubAttribute = ''''\<rparr>"
  "dottedPath ''userName'' = Some \<lparr>AttributeName = ''userName'', SubAttribute = ''''\<rparr>"
  "dottedPath ''bogus'' = Some \<lparr>AttributeName = ''bogus'', SubAttribute = ''''\<rparr>"
  by (simp_all add: dottedPath_def)

lemma userSchema_find:
  "findAttribute asciiEqualFold dottedPath ''remove'' ''userName'' (Attributes userSchema)
     = (Some userName, ValidationErrorNil)"
  "findAttribute asciiEqualFold dottedPath ''remove'' ''name.familyName'' (Attributes userSchema)
     = (Some familyName, ValidationErrorNil)"
  by (simp_all add: userSchema_def userName_def fullName_def familyName_def dottedPath_simps
        asciiEqualFold_simps cannotBePatched_def isImmutable_def isReadOnly_def)

section \<open>Whole-document validation: properties\<close>

text \<open>
  C1. Validation of a document against a schema succeeds (the error is the success
  sentinel, and then an output map is returned) if and only if the document is a
  key-value mapping, every declared top-level attribute has at most one entry whose
  key matches its name case-insensitively, and the attribute's own validator accepts
  the value presented to it: the matched value, or the absent marker when no key
  matches.
\<close>

theorem Validate_succeeds_iff:
  "(snd (Validate vld E S D) = ValidationErrorNil) =
     (\<exists>core. D = VMap core \<and>
        (\<forall>a \<in> set (Attributes S). length (matching E (name a) core) \<le> 1 \<and>
             snd (vld a (presented E (name a) core)) = ValidationErrorNil)) \<and>
   (fst (Validate vld E S D) \<noteq> None) = (snd (Validate vld E S D) = ValidationErrorNil)"
proof
  show "(snd (Validate vld E S D) = ValidationErrorNil) =
     (\<exists>core. D = VMap core \<and>
        (\<forall>a \<in> set (Attributes S). length (matching E (name a) core) \<le> 1 \<and>
             snd (vld a (presented E (name a) core)) = ValidationErrorNil))"
    by (cases D) (simp_all add: Validate_def Validate_attributes_ok)
  show "(fst (Validate vld E S D) \<noteq> None) = (snd (Validate vld E S D) = ValidationErrorNil)"
    by (cases D) (simp_all add: Validate_def Validate_attributes_fst del: not_None_eq)
qed

theorem Validate_succeeds_iff_witness:
  "snd (Validate requiredValidate asciiEqualFold userSchema
          (VMap [(''USERNAME'', VScalar ''bjensen''), (''nickName'', VScalar ''Babs'')]))
     = ValidationErrorNil \<and>
   snd (Validate requiredValidate asciiEqualFold userSchema
          (VMap [(''nickName'', VScalar ''Babs'')])) \<noteq> ValidationErrorNil"
  using Validate_succeeds_iff [of requiredValidate asciiEqualFold userSchema
          "VMap [(''USERNAME'', VScalar ''bjensen''), (''nickName'', VScalar ''Babs'')]"]
        Validate_succeeds_iff [of requiredValidate asciiEqualFold userSchema
          "VMap [(''nickName'', VScalar ''Babs'')]"]
  by (simp add: userSchema_def userName_def fullName_def familyName_def matching_def
        presented_def requiredValidate_def asciiEqualFold_def toLower_def)

text \<open>
  C7. For every input that is not a key-value mapping (the nil interface, a scalar or a
  sequence), validation fails with the invalid-syntax error and returns no output map.
\<close>

theorem Validate_not_a_map:
  assumes "\<forall>core. resource \<noteq> VMap core"
  shows "Validate vld E S resource = (None, ValidationErrorInvalidSyntax)"
  using assms by (cases resource) (simp_all add: Validate_def)

theorem Validate_not_a_map_witness:
  "Validate requiredValidate asciiEqualFold userSchema (VScalar ''a string'')
     = (None, ValidationErrorInvalidSyntax) \<and>
   Validate requiredValidate asciiEqualFold userSchema
       (VSlice [VScalar ''1'', VScalar ''2'', VScalar ''3''])
     = (None, ValidationErrorInvalidSyntax) \<and>
   Validate requiredValidate asciiEqualFold userSchema VNil
     = (None, ValidationErrorInvalidSyntax)"
  using Validate_not_a_map [of "VScalar ''a string''" requiredValidate asciiEqualFold userSchema]
        Validate_not_a_map [of "VSlice [VScalar ''1'', VScalar ''2'', VScalar ''3'']"
          requiredValidate asciiEqualFold userSchema]
        Validate_not_a_map [of VNil requiredValidate asciiEqualFold userSchema]
  by simp

text \<open>
  C5 (as the code has it). When two distinct keys of the document match the name of a
  declared attribute, validation fails and returns no output map. Attributes are
  checked in declaration order and the first failure is returned, so the error is
  invalid-syntax whenever the validators of the attributes declared before that
  attribute accept the values presented to them; otherwise the error of the first such
  validator to reject may be returned instead.
\<close>

theorem Validate_duplicate_fails:
  assumes "Attributes S = pre @ a # post"
    and "(k1, v1) \<in> set core" and "(k2, v2) \<in> set core" and "k1 \<noteq> k2"
    and "E (name a) k1" and "E (name a) k2"
  shows "fst (Validate vld E S (VMap core)) = None \<and>
         snd (Validate vld E S (VMap core)) \<noteq> ValidationErrorNil \<and>
         ((\<forall>b \<in> set pre. snd (vld b (presented E (name b) core)) = ValidationErrorNil) \<longrightarrow>
            Validate vld E S (VMap core) = (None, ValidationErrorInvalidSyntax))"
proof -
  have m: "1 < length (matching E (name a) core)"
    using assms(2-6) by (rule two_matching)
  have "snd (Validate_attributes vld E (Attributes S) core Map.empty) \<noteq> ValidationErrorNil"
    unfolding Validate_attributes_ok using m assms(1) by auto
  moreover from this have "fst (Validate_attributes vld E (Attributes S) core Map.empty) = None"
    using Validate_attributes_fst [of vld E "Attributes S" core Map.empty] by blast
  ultimately show ?thesis
    using Validate_attributes_duplicate [OF m, of pre vld post Map.empty] assms(1)
    by (simp add: Validate_def)
qed

theorem Validate_duplicate_fails_witness:
  "Validate requiredValidate asciiEqualFold userSchema
     (VMap [(''userName'', VScalar ''bjensen''), (''name'', VMap []), (''NAME'', VMap [])])
     = (None, ValidationErrorInvalidSyntax)"
proof -
  have f: "asciiEqualFold ''name'' ''name''" "asciiEqualFold ''name'' ''NAME''"
    "asciiEqualFold ''userName'' ''userName''" "\<not> asciiEqualFold ''userName'' ''name''"
    "\<not> asciiEqualFold ''userName'' ''NAME''"
    by (simp_all add: asciiEqualFold_def toLower_def)
  have a: "Attributes userSchema = [userName] @ fullName # []"
    by (simp add: userSchema_def)
  show ?thesis
    using Validate_duplicate_fails [OF a, of "''name''" "VMap []"
        "[(''userName'', VScalar ''bjensen''), (''name'', VMap []), (''NAME'', VMap [])]"
        "''NAME''" "VMap []" asciiEqualFold requiredValidate]
    by (simp add: f fullName_def userName_def presented_def matching_def requiredValidate_def)
qed

text \<open>
  C5 as stated does not hold: with a required attribute \<open>externalId\<close> declared before
  \<open>userName\<close> and absent from the document, the keys \<open>userName\<close> and \<open>USERNAME\<close> both
  match \<open>userName\<close>, yet the error returned is the validator's invalid-value for
  \<open>externalId\<close>, met first.
\<close>

theorem Validate_duplicate_counterexample:
  "''userName'' \<noteq> ''USERNAME'' \<and>
   userName \<in> set (Attributes provisioningSchema) \<and>
   asciiEqualFold (name userName) ''userName'' \<and>
   asciiEqualFold (name userName) ''USERNAME'' \<and>
   Validate requiredValidate asciiEqualFold provisioningSchema
     (VMap [(''userName'', VScalar ''a''), (''USERNAME'', VScalar ''b'')])
     = (None, ValidationErrorInvalidValue)"
proof -
  have 1: "asciiEqualFold ''userName'' ''USERNAME''" "asciiEqualFold ''userName'' ''userName''"
     "\<not> asciiEqualFold ''externalId'' ''USERNAME''" "\<not> asciiEqualFold ''externalId'' ''userName''"
    by (simp_all add: asciiEqualFold_def toLower_def)
  show ?thesis
  by (simp add: provisioningSchema_def userName_def externalId_def Validate_def
        requiredValidate_def 1)
qed

text \<open>
  C6. Validation is insensitive to the letter case of a document key: with a fold
  comparison that is symmetric and transitive and under which "userName" matches
  "USERNAME", the documents {"USERNAME": v} and {"userName": v} give the same result,
  error or output map; and where the schema declares the attribute "userName" (names
  being distinct), a successful output holds that attribute's validated value under
  the schema's key "userName".
\<close>

theorem Validate_key_case:
  assumes sym: "\<forall>x y. E x y \<longrightarrow> E y x"
    and trans: "\<forall>x y z. E x y \<longrightarrow> E y z \<longrightarrow> E x z"
    and fold: "E ''userName'' ''USERNAME''"
  shows "Validate vld E S (VMap [(''USERNAME'', v)]) = Validate vld E S (VMap [(''userName'', v)]) \<and>
         (\<forall>a m e. a \<in> set (Attributes S) \<and> name a = ''userName'' \<and>
              distinct (map name (Attributes S)) \<and>
              Validate vld E S (VMap [(''USERNAME'', v)]) = (Some m, e) \<longrightarrow>
            m ''userName'' = Some (fst (vld a v)))"
proof -
  have eq: "E n ''USERNAME'' = E n ''userName''" for n
    using sym trans fold by blast
  have r: "E ''userName'' ''USERNAME''" by (rule fold)
  have 1: "Validate vld E S (VMap [(''USERNAME'', v)]) = Validate vld E S (VMap [(''userName'', v)])"
    unfolding Validate_def any.case
    by (rule Validate_attributes_cong) (simp add: matching_def eq)
  have 2: "m ''userName'' = Some (fst (vld a v))"
    if "a \<in> set (Attributes S)" "name a = ''userName''" "distinct (map name (Attributes S))"
       "Validate vld E S (VMap [(''USERNAME'', v)]) = (Some m, e)" for a m e
  proof -
    from that(4) have "Validate_attributes vld E (Attributes S) [(''USERNAME'', v)] Map.empty = (Some m, e)"
      by (simp add: Validate_def)
    from Validate_attributes_lookup [OF this that(3)] that(1)
    have "m (name a) = Some (fst (vld a (presented E (name a) [(''USERNAME'', v)])))" by blast
    then show ?thesis by (simp add: that(2) presented_def matching_def r)
  qed
  from 1 2 show ?thesis by blast
qed

theorem Validate_key_case_witness:
  "Validate requiredValidate asciiEqualFold userSchema (VMap [(''USERNAME'', VScalar ''x'')])
     = Validate requiredValidate asciiEqualFold userSchema (VMap [(''userName'', VScalar ''x'')]) \<and>
   Validate requiredValidate asciiEqualFold userSchema (VMap [(''USERNAME'', VScalar ''x'')])
     = (Some [''userName'' \<mapsto> VScalar ''x'', ''name'' \<mapsto> VNil], ValidationErrorNil)"
proof (intro conjI)
  have s: "\<forall>x y. asciiEqualFold x y \<longrightarrow> asciiEqualFold y x"
    and t: "\<forall>x y z. asciiEqualFold x y \<longrightarrow> asciiEqualFold y z \<longrightarrow> asciiEqualFold x z"
    using asciiEqualFold_equiv by blast+
  have f: "asciiEqualFold ''userName'' ''USERNAME''" "\<not> asciiEqualFold ''name'' ''USERNAME''"
    by (simp_all add: asciiEqualFold_def toLower_def)
  show "Validate requiredValidate asciiEqualFold userSchema (VMap [(''USERNAME'', VScalar ''x'')])
     = Validate requiredValidate asciiEqualFold userSchema (VMap [(''userName'', VScalar ''x'')])"
    using Validate_key_case [OF s t f(1), of requiredValidate userSchema "VScalar ''x''"]
    by (rule conjunct1)
  show "Validate requiredValidate asciiEqualFold userSchema (VMap [(''USERNAME'', VScalar ''x'')])
     = (Some [''userName'' \<mapsto> VScalar ''x'', ''name'' \<mapsto> VNil], ValidationErrorNil)"
    by (simp add: Validate_def userSchema_def userName_def fullName_def f requiredValidate_def)
qed

text \<open>
  C10. Fields that no declared attribute matches are ignored. Let no declared
  attribute name match the key k. Then inserting an entry with key k anywhere in the
  document does not change the result; the same holds for two documents with distinct
  keys, in any iteration order, of which the second is the first with k assigned; and
  on success the keys of the output map are exactly the names of the declared
  top-level attributes.
\<close>

theorem Validate_ignores_undeclared:
  assumes "\<forall>a \<in> set (Attributes S). \<not> E (name a) k"
  shows "Validate vld E S (VMap (xs @ (k, v) # ys)) = Validate vld E S (VMap (xs @ ys)) \<and>
         (distinct (map fst c1) \<and> distinct (map fst c2) \<and> map_of c2 = (map_of c1)(k \<mapsto> v) \<longrightarrow>
            Validate vld E S (VMap c2) = Validate vld E S (VMap c1)) \<and>
         (\<forall>m e. Validate vld E S D = (Some m, e) \<longrightarrow> dom m = name ` set (Attributes S))"
proof -
  have 1: "Validate vld E S (VMap (xs @ (k, v) # ys)) = Validate vld E S (VMap (xs @ ys))"
    unfolding Validate_def any.case
    using assms by (intro Validate_attributes_cong) (simp add: matching_insert)
  have 2: "dom m = name ` set (Attributes S)" if "Validate vld E S D = (Some m, e)" for m e
    using that Validate_attributes_dom [of vld E "Attributes S" _ Map.empty m e]
    by (cases D) (simp_all add: Validate_def)
  have 3: "Validate vld E S (VMap c2) = Validate vld E S (VMap c1)"
    if "distinct (map fst c1)" "distinct (map fst c2)" "map_of c2 = (map_of c1)(k \<mapsto> v)"
    using that assms by (rule Validate_assign)
  from 1 2 3 show ?thesis by blast
qed

theorem Validate_ignores_undeclared_witness:
  "Validate requiredValidate asciiEqualFold userSchema
     (VMap [(''userName'', VScalar ''bjensen''), (''nickName'', VScalar ''Babs'')])
   = Validate requiredValidate asciiEqualFold userSchema (VMap [(''userName'', VScalar ''bjensen'')]) \<and>
   Validate requiredValidate asciiEqualFold userSchema
     (VMap [(''nickName'', VScalar ''Babs''), (''userName'', VScalar ''bjensen'')])
   = Validate requiredValidate asciiEqualFold userSchema (VMap [(''userName'', VScalar ''bjensen'')]) \<and>
   Validate requiredValidate asciiEqualFold userSchema
     (VMap [(''userName'', VScalar ''bjensen''), (''nickName'', VScalar ''Babs'')])
   = (Some [''userName'' \<mapsto> VScalar ''bjensen'', ''name'' \<mapsto> VNil], ValidationErrorNil) \<and>
   dom [''userName'' \<mapsto> VScalar ''bjensen'', ''name'' \<mapsto> VNil :: string any]
   = {''userName'', ''name''}"
proof -
  have f: "\<not> asciiEqualFold ''userName'' ''nickName''" "\<not> asciiEqualFold ''name'' ''nickName''"
    "asciiEqualFold ''userName'' ''userName''" "\<not> asciiEqualFold ''name'' ''userName''"
    by (simp_all add: asciiEqualFold_def toLower_def)
  have v: "Validate requiredValidate asciiEqualFold userSchema
          (VMap [(''userName'', VScalar ''bjensen''), (''nickName'', VScalar ''Babs'')])
     = (Some [''userName'' \<mapsto> VScalar ''bjensen'', ''name'' \<mapsto> VNil], ValidationErrorNil)"
    by (simp add: Validate_def userSchema_def userName_def fullName_def f requiredValidate_def)
  have a: "\<forall>a \<in> set (Attributes userSchema). \<not> asciiEqualFold (name a) ''nickName''"
    by (simp add: userSchema_def userName_def fullName_def f)
  have d: "distinct (map fst [(''userName'', VScalar ''bjensen'' :: string any)]) \<and>
           distinct (map fst [(''nickName'', VScalar ''Babs''),
                              (''userName'', VScalar ''bjensen'' :: string any)]) \<and>
           map_of [(''nickName'', VScalar ''Babs''), (''userName'', VScalar ''bjensen'')]
             = (map_of [(''userName'', VScalar ''bjensen'' :: string any)])
                 (''nickName'' \<mapsto> VScalar ''Babs'')"
    by simp
  note u = Validate_ignores_undeclared [where S = userSchema and E = asciiEqualFold
        and k = "''nickName''" and vld = requiredValidate
        and xs = "[(''userName'', VScalar ''bjensen'')]" and v = "VScalar ''Babs''"
        and ys = "[]"
        and ?c1.0 = "[(''userName'', VScalar ''bjensen'')]"
        and ?c2.0 = "[(''nickName'', VScalar ''Babs''), (''userName'', VScalar ''bjensen'')]"
        and D = "VMap [(''userName'', VScalar ''bjensen''), (''nickName'', VScalar ''Babs'')]",
        OF a]
  from u have 1: "Validate requiredValidate asciiEqualFold userSchema
     (VMap [(''userName'', VScalar ''bjensen''), (''nickName'', VScalar ''Babs'')])
   = Validate requiredValidate asciiEqualFold userSchema (VMap [(''userName'', VScalar ''bjensen'')])"
    by simp
  from u d have 2: "Validate requiredValidate asciiEqualFold userSchema
     (VMap [(''nickName'', VScalar ''Babs''), (''userName'', VScalar ''bjensen'')])
   = Validate requiredValidate asciiEqualFold userSchema (VMap [(''userName'', VScalar ''bjensen'')])"
    by blast
  from u v have "dom [''userName'' \<mapsto> VScalar ''bjensen'', ''name'' \<mapsto> VNil :: string any]
      = name ` set (Attributes userSchema)"
    by blast
  then have 3: "dom [''userName'' \<mapsto> VScalar ''bjensen'', ''name'' \<mapsto> VNil :: string any]
      = {''userName'', ''name''}"
    by (simp add: userSchema_def userName_def fullName_def)
  from 1 2 v 3 show ?thesis by blast
qed

section \<open>The mutability guard: properties\<close>

text \<open>
  C2. The guard is the following table: a read-only attribute is blocked for every
  operation; an immutable attribute is blocked for the operations "replace" and
  "remove" and for no other operation ("add" included); a read-write or write-only
  attribute is never blocked.
\<close>

theorem cannotBePatched_table:
  "cannotBePatched op attr =
     (case mutability attr of
        attributeMutabilityReadOnly \<Rightarrow> True
      | attributeMutabilityImmutable \<Rightarrow> op = ''replace'' \<or> op = ''remove''
      | attributeMutabilityReadWrite \<Rightarrow> False
      | attributeMutabilityWriteOnly \<Rightarrow> False)"
  by (simp add: cannotBePatched_def isImmutable_def isReadOnly_def
        split: attributeMutability.splits)

section \<open>Path resolution and patch validation: properties\<close>

text \<open>
  C3. When an attribute that the path addresses at any level is blocked by the
  mutability guard for the operation, resolution yields no attribute and the
  invalid-value error, whatever sub-path remains and whatever the mutability of the
  attributes below it: a blocked parent blocks all its children.
\<close>

theorem blocked_parent_blocks_children:
  assumes "onPath E P path attributes attr" and "cannotBePatched operation attr"
  shows "findAttribute E P operation path attributes = (None, ValidationErrorInvalidValue)"
  using assms
proof (induction rule: onPath.induct)
  case (here path p attributes attr)
  then show ?case by (subst findAttribute_find) simp
next
  case (below path p attributes attr sub)
  then show ?case by (subst findAttribute_find) simp
qed

theorem blocked_parent_blocks_children_witness:
  "onPath asciiEqualFold dottedPath ''name.familyName'' [blockedName] blockedName \<and>
   cannotBePatched ''add'' blockedName \<and>
   \<not> cannotBePatched ''add'' familyName \<and>
   findAttribute asciiEqualFold dottedPath ''add'' ''familyName'' (subAttributes blockedName)
     = (Some familyName, ValidationErrorNil) \<and>
   findAttribute asciiEqualFold dottedPath ''add'' ''name.familyName'' [blockedName]
     = (None, ValidationErrorInvalidValue)"
proof -
  have p: "onPath asciiEqualFold dottedPath ''name.familyName'' [blockedName] blockedName"
  proof (rule onPath.here)
    show "dottedPath ''name.familyName''
            = Some \<lparr>AttributeName = ''name'', SubAttribute = ''familyName''\<rparr>"
      by (rule dottedPath_simps)
    show "find (\<lambda>a. asciiEqualFold (name a)
                  (AttributeName \<lparr>AttributeName = ''name'', SubAttribute = ''familyName''\<rparr>))
            [blockedName] = Some blockedName"
      by (simp add: blockedName_def asciiEqualFold_simps)
  qed
  have b: "cannotBePatched ''add'' blockedName"
    by (simp add: cannotBePatched_def isReadOnly_def blockedName_def)
  have c: "\<not> cannotBePatched ''add'' familyName"
    by (simp add: cannotBePatched_def isReadOnly_def isImmutable_def familyName_def)
  have d: "findAttribute asciiEqualFold dottedPath ''add'' ''familyName''
             (subAttributes blockedName) = (Some familyName, ValidationErrorNil)"
    using c by (simp add: dottedPath_simps blockedName_def asciiEqualFold_simps familyName_def)
  show ?thesis using p b c d blocked_parent_blocks_children [OF p b] by simp
qed

text \<open>
  C4. For the operation "remove", patch validation does not depend on the attributes'
  validators (they are never applied to the values): its result is the same for any
  two validators, and it succeeds exactly when every path resolves to an attribute
  that the guard permits, whatever the associated values are.
\<close>

theorem remove_skips_validate:
  "ValidatePatchOperationValue vld E P s ''remove'' ov =
     ValidatePatchOperationValue vld' E P s ''remove'' ov \<and>
   (ValidatePatchOperationValue vld E P s ''remove'' ov = ValidationErrorNil) =
     (\<forall>kv \<in> set ov. \<exists>a. findAttribute E P ''remove'' (fst kv) (Attributes s)
                              = (Some a, ValidationErrorNil) \<and>
                          \<not> cannotBePatched ''remove'' a)"
  using remove_any_validator [of vld E P s ov vld'] remove_succeeds_iff [of vld E P s ov]
  by blast

theorem remove_skips_validate_witness:
  "ValidatePatchOperationValue requiredValidate asciiEqualFold dottedPath userSchema ''remove''
     [(''userName'', VNil), (''name.familyName'', VSlice [])] = ValidationErrorNil \<and>
   ValidatePatchOperationValue requiredValidate asciiEqualFold dottedPath userSchema ''replace''
     [(''userName'', VNil), (''name.familyName'', VSlice [])] = ValidationErrorInvalidValue"
proof -
  have n: "\<not> cannotBePatched ''remove'' userName" "\<not> cannotBePatched ''remove'' familyName"
    by (simp_all add: cannotBePatched_def isImmutable_def isReadOnly_def userName_def
          familyName_def)
  have r: "ValidatePatchOperationValue requiredValidate asciiEqualFold dottedPath userSchema
     ''replace'' [(''userName'', VNil), (''name.familyName'', VSlice [])]
       = ValidationErrorInvalidValue"
    by (simp add: userSchema_def userName_def fullName_def familyName_def dottedPath_simps
        asciiEqualFold_simps cannotBePatched_def isImmutable_def isReadOnly_def
        requiredValidate_def)
  show ?thesis
    using n r
      remove_skips_validate [of requiredValidate asciiEqualFold dottedPath userSchema
        "[(''userName'', VNil), (''name.familyName'', VSlice [])]" requiredValidate]
    by (simp add: userSchema_find del: findAttribute.simps)
qed

text \<open>
  C8. Resolution descends into sub-attributes. Let the parser split "name.familyName"
  into "name" and "familyName" and "name.bogus" into "name" and "bogus", let "name"
  address an attribute of the list whose children contain one that "familyName"
  addresses and none that "bogus" addresses, and let the operation be blocked for
  neither attribute. Then "name.familyName" resolves to that child with no error, and
  "name.bogus" resolves to no attribute, with the invalid-value error.
\<close>

theorem findAttribute_nested:
  assumes "P ''name.familyName''
             = Some \<lparr>AttributeName = ''name'', SubAttribute = ''familyName''\<rparr>"
    and "P ''familyName'' = Some \<lparr>AttributeName = ''familyName'', SubAttribute = ''''\<rparr>"
    and "P ''name.bogus'' = Some \<lparr>AttributeName = ''name'', SubAttribute = ''bogus''\<rparr>"
    and "P ''bogus'' = Some \<lparr>AttributeName = ''bogus'', SubAttribute = ''''\<rparr>"
    and "find (\<lambda>a. E (name a) ''name'') attributes = Some parent"
    and "find (\<lambda>a. E (name a) ''familyName'') (subAttributes parent) = Some child"
    and "find (\<lambda>a. E (name a) ''bogus'') (subAttributes parent) = None"
    and "\<not> cannotBePatched operation parent" and "\<not> cannotBePatched operation child"
  shows "findAttribute E P operation ''name.familyName'' attributes
           = (Some child, ValidationErrorNil) \<and>
         findAttribute E P operation ''name.bogus'' attributes
           = (None, ValidationErrorInvalidValue)"
proof -
  from assms(6) have ne: "subAttributes parent \<noteq> []"
    by (cases "subAttributes parent") auto
  have c: "findAttribute E P operation ''familyName'' (subAttributes parent)
             = (Some child, ValidationErrorNil)"
    using assms by (subst findAttribute_find) simp
  have b: "findAttribute E P operation ''bogus'' (subAttributes parent)
             = (None, ValidationErrorInvalidValue)"
    using assms by (subst findAttribute_find) simp
  have 1: "findAttribute E P operation ''name.familyName'' attributes
             = (Some child, ValidationErrorNil)"
    using assms ne c by (subst findAttribute_find) simp
  have 2: "findAttribute E P operation ''name.bogus'' attributes
             = (None, ValidationErrorInvalidValue)"
    using assms ne b by (subst findAttribute_find) simp
  from 1 2 show ?thesis by simp
qed

theorem findAttribute_nested_witness:
  "findAttribute asciiEqualFold dottedPath ''replace'' ''name.familyName''
       (Attributes userSchema)
     = (Some familyName, ValidationErrorNil) \<and>
   findAttribute asciiEqualFold dottedPath ''replace'' ''name.bogus'' (Attributes userSchema)
     = (None, ValidationErrorInvalidValue)"
proof -
  have 1: "find (\<lambda>a. asciiEqualFold (name a) ''name'') (Attributes userSchema) = Some fullName"
    by (simp add: userSchema_def userName_def fullName_def asciiEqualFold_simps)
  have 2: "find (\<lambda>a. asciiEqualFold (name a) ''familyName'') (subAttributes fullName)
             = Some familyName"
    by (simp add: fullName_def familyName_def asciiEqualFold_simps)
  have 3: "find (\<lambda>a. asciiEqualFold (name a) ''bogus'') (subAttributes fullName) = None"
    by (simp add: fullName_def familyName_def asciiEqualFold_simps)
  have 4: "\<not> cannotBePatched ''replace'' fullName" "\<not> cannotBePatched ''replace'' familyName"
    by (simp_all add: cannotBePatched_def isImmutable_def isReadOnly_def fullName_def
          familyName_def)
  show ?thesis
    by (rule findAttribute_nested [OF dottedPath_simps(1) dottedPath_simps(3)
          dottedPath_simps(2) dottedPath_simps(5) 1 2 3 4])
qed

section \<open>Serialization: properties\<close>

text \<open>
  C9. The serialized document has exactly the four keys id, name, description and
  attributes, each once, whatever the schema: the name key holds the optional name as
  it is and the description key holds the description's value, the empty string when
  the description is absent. The attributes entry is the sequence of the renderings
  of the declared top-level attributes, of the same length and in the same order.
\<close>

theorem MarshalJSON_document:
  "set (map fst (MarshalJSON raw s)) = {''id'', ''name'', ''description'', ''attributes''} \<and>
   distinct (map fst (MarshalJSON raw s)) \<and>
   map_of (MarshalJSON raw s) ''id'' = Some (FString (ID s)) \<and>
   map_of (MarshalJSON raw s) ''name'' = Some (FOptionalString (Name s)) \<and>
   map_of (MarshalJSON raw s) ''description'' = Some (FString (Value (Description s))) \<and>
   Value None = '''' \<and>
   map_of (MarshalJSON raw s) ''attributes'' = Some (FAttributes (getRawAttributes raw s)) \<and>
   length (getRawAttributes raw s) = length (Attributes s) \<and>
   (\<forall>i < length (Attributes s). getRawAttributes raw s ! i = raw (Attributes s ! i))"
  by (auto simp: MarshalJSON_def getRawAttributes_def Value_def)

theorem MarshalJSON_document_witness:
  "map_of (MarshalJSON name (userSchema\<lparr>Name := None\<rparr>)) ''name'' = Some (FOptionalString None) \<and>
   map_of (MarshalJSON name userSchema) ''description'' = Some (FString '''') \<and>
   (1::nat) < length (Attributes userSchema) \<and>
   getRawAttributes name userSchema ! 1 = ''name''"
  using MarshalJSON_document [of name "userSchema\<lparr>Name := None\<rparr>"]
        MarshalJSON_document [of name userSchema]
  by (simp add: userSchema_def userName_def fullName_def)

end
